theory Spec2Isabelle
  imports Main "HOL-Library.Word"
begin

unbundle bit_operations_syntax

section \<open>Python values, errors and slices\<close>

type_synonym byte = "8 word"
type_synonym bytes = "byte list"

text \<open>Exceptions the modelled code can raise. A raise is the \<open>Inl\<close> branch of a result.\<close>

datatype error =
    BOFProgrammingError
  | NameError
  | KeyError
  | ValueError
  | OverflowError
  | AssertionError
  | RecursionError
  | TypeError

text \<open>The Python objects that the conversion functions and the default-value map hold.\<close>

datatype pyval = PStr string | PBytes bytes | PInt int

text \<open>Python's \<open>a[i:]\<close> and \<open>a[:i]\<close>; a negative index counts from the end and both clamp.\<close>

definition slice_from :: "'a list \<Rightarrow> int \<Rightarrow> 'a list" where
  "slice_from xs i =
     (if i < 0 then drop (nat (int (length xs) + i)) xs else drop (nat i) xs)"

definition slice_to :: "'a list \<Rightarrow> int \<Rightarrow> 'a list" where
  "slice_to xs i =
     (if i < 0 then take (nat (int (length xs) + i)) xs else take (nat i) xs)"

section \<open>Python's integer builtins\<close>

text \<open>\<open>int.bit_length()\<close>: the number of bits of the absolute value.\<close>

fun bit_length_nat :: "nat \<Rightarrow> nat" where
  "bit_length_nat n = (if n = 0 then 0 else Suc (bit_length_nat (n div 2)))"

declare bit_length_nat.simps [simp del]

definition bit_length :: "int \<Rightarrow> nat" where
  "bit_length v = bit_length_nat (nat \<bar>v\<bar>)"

text \<open>The little-endian digits in base 256 of a number, on a fixed number of bytes.\<close>

fun le_bytes :: "nat \<Rightarrow> nat \<Rightarrow> bytes" where
  "le_bytes 0 n = []"
| "le_bytes (Suc k) n = of_nat (n mod 256) # le_bytes k (n div 256)"

fun le_to_nat :: "bytes \<Rightarrow> nat" where
  "le_to_nat [] = 0"
| "le_to_nat (b # bs) = unat b + 256 * le_to_nat bs"

text \<open>\<open>int.to_bytes(length, byteorder)\<close> (unsigned): OverflowError for a negative value
  or one that does not fit, ValueError for an order that is neither big nor little.\<close>

definition int_to_bytes :: "int \<Rightarrow> nat \<Rightarrow> string \<Rightarrow> error + bytes" where
  "int_to_bytes v len byteorder =
     (if byteorder \<noteq> ''big'' \<and> byteorder \<noteq> ''little'' then Inl ValueError
      else if v < 0 then Inl OverflowError
      else if 256 ^ len \<le> nat v then Inl OverflowError
      else Inr (if byteorder = ''little'' then le_bytes len (nat v)
                else rev (le_bytes len (nat v))))"

text \<open>\<open>int.from_bytes(bytes, byteorder)\<close> (unsigned).\<close>

definition int_from_bytes :: "bytes \<Rightarrow> string \<Rightarrow> error + int" where
  "int_from_bytes array byteorder =
     (if byteorder = ''little'' then Inr (int (le_to_nat array))
      else if byteorder = ''big'' then Inr (int (le_to_nat (rev array)))
      else Inl ValueError)"

section \<open>bof/byte.py\<close>


text \<open>The line \<open>byteorder = byteorder if byteorder else _BYTEORDER\<close>: \<open>None\<close> and the
  empty string are both falsy.\<close>

definition byteorder_or_default :: "string \<Rightarrow> string option \<Rightarrow> string" where
  "byteorder_or_default BYTEORDER byteorder =
     (case byteorder of None \<Rightarrow> BYTEORDER
      | Some b \<Rightarrow> if b = [] then BYTEORDER else b)"

definition get_size :: "pyval \<Rightarrow> error + nat" where
  "get_size array =
     (case array of
        PBytes b \<Rightarrow> Inr (length b)
      | PInt i \<Rightarrow> Inr ((bit_length i + 7) div 8)
      | PStr s \<Rightarrow> Inl BOFProgrammingError)"

definition resize :: "string \<Rightarrow> bytes \<Rightarrow> int \<Rightarrow> string option \<Rightarrow> bytes" where
  "resize BYTEORDER array sz byteorder =
     (let byteorder = byteorder_or_default BYTEORDER byteorder in
      if sz < int (length array) then
        (if byteorder = ''big'' then slice_from array (int (length array) - sz)
         else slice_to array sz)
      else if sz > int (length array) then
        (let padding = replicate (nat (sz - int (length array))) (0 :: byte) in
         if byteorder = ''big'' then padding @ array else array @ padding)
      else array)"

definition from_int :: "string \<Rightarrow> int \<Rightarrow> int \<Rightarrow> string option \<Rightarrow> error + bytes" where
  "from_int BYTEORDER v sz byteorder =
     (let byteorder = byteorder_or_default BYTEORDER byteorder in
      if byteorder \<noteq> ''big'' \<and> byteorder \<noteq> ''little'' then Inl BOFProgrammingError
      else
        (case int_to_bytes v ((bit_length v + 7) div 8) byteorder of
           Inl e \<Rightarrow> Inl e
         | Inr val \<Rightarrow>
             (let sz = (if length val = 0 then (if sz = 0 then 1 else sz) else sz)
              in Inr (resize BYTEORDER val
                        (if sz = 0 then int (length val) else sz) (Some byteorder)))))"

definition to_int :: "string \<Rightarrow> bytes \<Rightarrow> string option \<Rightarrow> error + int" where
  "to_int BYTEORDER array byteorder =
     (let byteorder = byteorder_or_default BYTEORDER byteorder in
      if byteorder \<noteq> ''big'' \<and> byteorder \<noteq> ''little'' then Inl BOFProgrammingError
      else int_from_bytes array byteorder)"

text \<open>The loop of \<open>int_to_bit_list\<close>: \<open>size\<close> times, append \<open>n & 1\<close> and shift \<open>n\<close> right.\<close>

fun bits_lsb_first :: "nat \<Rightarrow> int \<Rightarrow> int list" where
  "bits_lsb_first 0 n = []"
| "bits_lsb_first (Suc k) n = (n mod 2) # bits_lsb_first k (n div 2)"

definition int_to_bit_list :: "string \<Rightarrow> int \<Rightarrow> int \<Rightarrow> string option \<Rightarrow> error + int list" where
  "int_to_bit_list BYTEORDER n sz byteorder =
     (let byteorder = byteorder_or_default BYTEORDER byteorder in
      if byteorder \<noteq> ''big'' \<and> byteorder \<noteq> ''little'' then Inl BOFProgrammingError
      else
        (let t = bits_lsb_first (nat sz) n
         in Inr (if byteorder = ''big'' then rev t else t)))"

text \<open>The loop of \<open>bit_list_to_int\<close>: shift the accumulator left and add the bit.\<close>

definition shift_add :: "int list \<Rightarrow> int" where
  "shift_add t = foldl (\<lambda>n b. 2 * n + b) 0 t"

definition bit_list_to_int :: "string \<Rightarrow> int list \<Rightarrow> string option \<Rightarrow> error + int" where
  "bit_list_to_int BYTEORDER t byteorder =
     (let byteorder = byteorder_or_default BYTEORDER byteorder in
      if byteorder \<noteq> ''big'' \<and> byteorder \<noteq> ''little'' then Inl BOFProgrammingError
      else Inr (shift_add (if byteorder \<noteq> ''big'' then rev t else t)))"

text \<open>\<open>to_bit_list\<close> computes \<open>size\<close> and never uses it, and calls \<open>int_to_bit_list\<close>
  without an order, as the source does.\<close>

definition to_bit_list :: "string \<Rightarrow> bytes \<Rightarrow> int option \<Rightarrow> string option \<Rightarrow> error + int list" where
  "to_bit_list BYTEORDER val sz byteorder =
     (let byteorder = byteorder_or_default BYTEORDER byteorder in
      if byteorder \<noteq> ''big'' \<and> byteorder \<noteq> ''little'' then Inl BOFProgrammingError
      else
        (case int_from_bytes val byteorder of
           Inl e \<Rightarrow> Inl e
         | Inr n \<Rightarrow> int_to_bit_list BYTEORDER n (8 * int (length val)) None))"

definition from_bit_list :: "string \<Rightarrow> int list \<Rightarrow> string option \<Rightarrow> error + bytes" where
  "from_bit_list BYTEORDER bits byteorder =
     (let byteorder = byteorder_or_default BYTEORDER byteorder in
      if byteorder \<noteq> ''big'' \<and> byteorder \<noteq> ''little'' then Inl BOFProgrammingError
      else if length bits mod 8 \<noteq> 0 then Inl AssertionError
      else
        (case bit_list_to_int BYTEORDER bits (Some byteorder) of
           Inl e \<Rightarrow> Inl e
         | Inr n \<Rightarrow> int_to_bytes n (length bits div 8) byteorder))"


subsection \<open>KNX addresses\<close>

text \<open>\<open>str(n)\<close> and \<open>int(s)\<close> for the decimal strings that the two functions format and
  parse.\<close>

definition digit_char :: "nat \<Rightarrow> char" where
  "digit_char d = ''0123456789'' ! d"

function str_nat :: "nat \<Rightarrow> string" where
  "str_nat n = (if n < 10 then [digit_char n] else str_nat (n div 10) @ [digit_char (n mod 10)])"
  by pat_completeness auto
termination
  by (relation "measure id") auto

declare str_nat.simps [simp del]

definition str_int :: "int \<Rightarrow> string" where
  "str_int i = (if i < 0 then CHR ''-'' # str_nat (nat (- i)) else str_nat (nat i))"



text \<open>\<open>int(s, 2)\<close> on the string joined from a list of bits (each 0 or 1, as
  \<open>to_bit_list\<close> produces them): ValueError on the empty string.\<close>

definition int_base2 :: "int list \<Rightarrow> error + int" where
  "int_base2 bits = (if bits = [] then Inl ValueError else Inr (shift_add bits))"



definition to_knx :: "string \<Rightarrow> bytes \<Rightarrow> bool \<Rightarrow> error + string option" where
  "to_knx BYTEORDER val grp =
     (if length val = 0 then Inr None
      else
        (let first_chunk_size = (if grp then 5 else 4 :: int);
             sep = (if grp then ''/'' else ''.'')
         in case to_bit_list BYTEORDER (slice_to val 1) None None of
              Inl e \<Rightarrow> Inl e
            | Inr bitlist \<Rightarrow>
                (case int_base2 (slice_to bitlist first_chunk_size) of
                   Inl e \<Rightarrow> Inl e
                 | Inr x \<Rightarrow>
                     (case int_base2 (slice_from bitlist first_chunk_size) of
                        Inl e \<Rightarrow> Inl e
                      | Inr y \<Rightarrow>
                          (case to_int BYTEORDER (slice_from val 1) None of
                             Inl e \<Rightarrow> Inl e
                           | Inr z \<Rightarrow>
                               Inr (Some (str_int x @ sep @ str_int y @ sep @ str_int z)))))))"




section \<open>bof/opcua/opcuaframe.py\<close>

text \<open>
  An item template is the dictionary \<open>{"name": ..., "type": ..., "size": ...}\<close> of the
  specification document. The key \<open>"type"\<close> may be missing; the declared size is a
  number of bytes. The document itself has the two dictionaries \<open>blocks\<close> and \<open>codes\<close>,
  kept in their declared order.
\<close>

record item_template =
  it_name :: string
  it_type :: "string option"
  it_size :: nat

record OpcuaSpec =
  blocks :: "(string \<times> item_template list) list"
  codes :: "(string \<times> (string \<times> string) list) list"

text \<open>The tree that construction builds: a field is a leaf with a name, a declared size
  and a byte value; a block has a name and its ordered children.\<close>

datatype item =
    OpcuaField string nat bytes
  | OpcuaBlock string "item list"

text \<open>Modelled from the spec: \<open>BOFField.__init__\<close> (bof/frame.py) is not among the sources.
  A field built from a template binds the name and the declared size, and its value is
  truncated to at most the declared size, where a declared size of 0 is unbounded.\<close>

definition BOFField_init :: "item_template \<Rightarrow> bytes \<Rightarrow> item" where
  "BOFField_init item_template val =
     OpcuaField (it_name item_template) (it_size item_template)
       (if it_size item_template = 0 then val else take (it_size item_template) val)"

text \<open>Modelled from the spec: \<open>BOFBlock.__init__\<close> (bof/frame.py) is not among the sources.
  A block starts with an empty ordered list of children; its name is set later from the
  resolved type.\<close>

definition BOFBlock_init :: item where
  "BOFBlock_init = OpcuaBlock [] []"

text \<open>Modelled from the spec: \<open>__len__\<close> and \<open>__bytes__\<close> of fields and blocks (bof/frame.py)
  are not among the sources. The length of a field is the length of its current value
  and the length of a block is the sum of its children's lengths; serialization
  concatenates the byte values of the leaves in child order.\<close>

fun item_len :: "item \<Rightarrow> nat" where
  "item_len (OpcuaField n s v) = length v"
| "item_len (OpcuaBlock n cs) = sum_list (map item_len cs)"

fun item_bytes :: "item \<Rightarrow> bytes" where
  "item_bytes (OpcuaField n s v) = v"
| "item_bytes (OpcuaBlock n cs) = concat (map item_bytes cs)"

fun children :: "item \<Rightarrow> item list" where
  "children (OpcuaField n s v) = []"
| "children (OpcuaBlock n cs) = cs"

fun item_name :: "item \<Rightarrow> string" where
  "item_name (OpcuaField n s v) = n"
| "item_name (OpcuaBlock n cs) = n"

text \<open>Modelled from the spec: the helpers \<open>_get_dict_value\<close> and \<open>_get_dict_key\<close> of
  \<open>BOFSpec\<close> (bof/spec.py) are not among the sources. Both are exact-name lookups; an
  absent name yields \<open>None\<close>.\<close>

definition get_dict_value :: "(string \<times> 'v) list \<Rightarrow> string \<Rightarrow> 'v option" where
  "get_dict_value dictionary key = map_of dictionary key"

definition get_dict_key :: "(string \<times> 'v) list \<Rightarrow> string \<Rightarrow> string option" where
  "get_dict_key dictionary key = (if key \<in> set (map fst dictionary) then Some key else None)"

text \<open>\<open>get_block_template\<close>: the empty name is falsy and yields \<open>None\<close>.\<close>

definition get_block_template :: "OpcuaSpec \<Rightarrow> string \<Rightarrow> item_template list option" where
  "get_block_template sp block_name =
     (if block_name \<noteq> [] then get_dict_value (blocks sp) block_name else None)"

text \<open>\<open>str.encode(key)\<close>: the bytes of the characters.\<close>

definition encode :: "string \<Rightarrow> bytes" where
  "encode s = map (\<lambda>c. of_nat (of_char c)) s"

text \<open>The two loops of \<open>get_code_name\<close> return the value of the first matching key.
  \<open>self.codes[code_name]\<close> raises KeyError when the table is missing.\<close>

definition first_match :: "('k \<Rightarrow> bool) \<Rightarrow> ('k \<times> 'v) list \<Rightarrow> 'v option" where
  "first_match p table = map_option snd (find (\<lambda>kv. p (fst kv)) table)"

definition get_code_name :: "OpcuaSpec \<Rightarrow> string \<Rightarrow> pyval \<Rightarrow> error + string option" where
  "get_code_name sp code_name identifier =
     (let code_name = get_dict_key (codes sp) code_name;
          table = (case code_name of None \<Rightarrow> None | Some cn \<Rightarrow> map_of (codes sp) cn)
      in case identifier of
           PBytes b \<Rightarrow>
             (case table of
                None \<Rightarrow> Inl KeyError
              | Some t \<Rightarrow> Inr (first_match (\<lambda>key. b = encode key) t))
         | PStr s \<Rightarrow>
             (case table of
                None \<Rightarrow> Inl KeyError
              | Some t \<Rightarrow> Inr (first_match (\<lambda>key. s = key) t))
         | PInt i \<Rightarrow> Inr None)"

text \<open>The keyword arguments of \<open>OpcuaBlock.__init__\<close> and \<open>OpcuaBlock.factory\<close>; a key
  that the caller does not pass is \<open>None\<close>. The keyword \<open>parent\<close> is the separate
  argument \<open>parents\<close> below: the already built children of the parent block, of its
  parent, and so on upwards.\<close>

record kwargs =
  kw_type :: "string option"
  kw_item_template_block :: "item_template option"
  kw_defaults :: "(string \<rightharpoonup> pyval) option"
  kw_value :: "bytes option"

text \<open>The method \<open>_get_depends_block\<close> is inherited from \<open>BOFBlock\<close> (bof/frame.py), which
  is not among the sources. It is a parameter of the construction: from the chain of
  parents and the name of the dependency it returns a block type, \<open>None\<close>, or raises.\<close>

type_synonym depends_lookup = "item list list \<Rightarrow> string \<Rightarrow> error + string option"

text \<open>Lines 246--253 of \<open>__init__\<close>: the block type comes from the keyword \<open>type\<close>, else
  from the item template, else there is none.\<close>

definition kwargs_block_type :: "kwargs \<Rightarrow> string option" where
  "kwargs_block_type kw =
     (case kw_type kw of
        Some t \<Rightarrow> Some t
      | None \<Rightarrow>
          (case kw_item_template_block kw of
             Some item_template_block \<Rightarrow> it_type item_template_block
           | None \<Rightarrow> None))"

definition startswith :: "string \<Rightarrow> string \<Rightarrow> bool" where
  "startswith s prefix = (take (length prefix) s = prefix)"

text \<open>\<open>block_type.split(":")[1]\<close> for a type that starts with \<open>depends:\<close>: the text
  between the first colon and the next one.\<close>

definition dependency_of :: "string \<Rightarrow> string" where
  "dependency_of block_type = takeWhile (\<lambda>c. c \<noteq> CHR '':'') (drop 8 block_type)"

text \<open>Lines 257--273 of \<open>__init__\<close>. The test \<open>dependency == None\<close> after the code-table
  lookup never holds, so a lookup that finds nothing leaves the type \<open>None\<close>.\<close>

definition resolve_block_type ::
  "OpcuaSpec \<Rightarrow> depends_lookup \<Rightarrow> item list list \<Rightarrow> (string \<rightharpoonup> pyval) \<Rightarrow> string
     \<Rightarrow> error + string option" where
  "resolve_block_type sp get_depends_block parents defaults block_type =
     (if startswith block_type ''depends:'' then
        (let dependency = dependency_of block_type
         in case defaults dependency of
              Some v \<Rightarrow> get_code_name sp dependency v
            | None \<Rightarrow>
                (case get_depends_block parents dependency of
                   Inl e \<Rightarrow> Inl e
                 | Inr None \<Rightarrow> Inl BOFProgrammingError
                 | Inr (Some t) \<Rightarrow> Inr (Some t)))
      else Inr (Some block_type))"

text \<open>
  \<open>OpcuaBlock.__init__\<close>, \<open>OpcuaBlock.factory\<close> and the loop over the block template.
  The number \<open>n\<close> bounds the depth of nested blocks (Python's recursion limit):
  \<open>factory\<close> raises RecursionError when it is used up. The loop carries the remaining
  buffer \<open>val\<close> and the children appended so far.
\<close>

function OpcuaBlock_init ::
    "OpcuaSpec \<Rightarrow> depends_lookup \<Rightarrow> nat \<Rightarrow> item list list \<Rightarrow> kwargs \<Rightarrow> error + item"
  and factory ::
    "OpcuaSpec \<Rightarrow> depends_lookup \<Rightarrow> nat \<Rightarrow> item list list \<Rightarrow> item_template \<Rightarrow> kwargs
       \<Rightarrow> error + item"
  and build_items ::
    "OpcuaSpec \<Rightarrow> depends_lookup \<Rightarrow> nat \<Rightarrow> item list list \<Rightarrow> (string \<rightharpoonup> pyval)
       \<Rightarrow> item_template list \<Rightarrow> bytes \<Rightarrow> item list \<Rightarrow> error + item list"
where
  "OpcuaBlock_init sp gdb n parents kw =
     (let defaults = (case kw_defaults kw of Some d \<Rightarrow> d | None \<Rightarrow> Map.empty);
          val = (case kw_value kw of Some v \<Rightarrow> v | None \<Rightarrow> [])
      in case kwargs_block_type kw of
           None \<Rightarrow> Inr BOFBlock_init
         | Some block_type \<Rightarrow>
             (case resolve_block_type sp gdb parents defaults block_type of
                Inl e \<Rightarrow> Inl e
              | Inr None \<Rightarrow> Inl BOFProgrammingError
              | Inr (Some block_type) \<Rightarrow>
                  (case get_block_template sp block_type of
                     None \<Rightarrow> Inl BOFProgrammingError
                   | Some block_template \<Rightarrow>
                       if block_template = [] then Inl BOFProgrammingError
                       else
                         (case build_items sp gdb n parents defaults block_template val [] of
                            Inl e \<Rightarrow> Inl e
                          | Inr cs \<Rightarrow> Inr (OpcuaBlock block_type cs)))))"
| "factory sp gdb n parents item_template kw =
     (if it_type item_template = Some ''field'' then
        (if (case kw_defaults kw of
               Some d \<Rightarrow> d (it_name item_template) \<noteq> None
             | None \<Rightarrow> False)
         then Inl NameError
         else
           Inr (BOFField_init item_template
                  (case kw_value kw of
                     Some v \<Rightarrow> if v \<noteq> [] then take (it_size item_template) v else []
                   | None \<Rightarrow> [])))
      else
        (case kw_item_template_block kw of
           Some other \<Rightarrow> Inl TypeError
         | None \<Rightarrow>
             (case n of
                0 \<Rightarrow> Inl RecursionError
              | Suc m \<Rightarrow>
                  OpcuaBlock_init sp gdb m parents
                    (kw\<lparr>kw_item_template_block := Some item_template\<rparr>))))"
| "build_items sp gdb n parents defaults [] val acc = Inr acc"
| "build_items sp gdb n parents defaults (item_template # rest) val acc =
     (case factory sp gdb n (acc # parents) item_template
             \<lparr>kw_type = None, kw_item_template_block = None,
              kw_defaults = Some defaults, kw_value = Some val\<rparr> of
        Inl e \<Rightarrow> Inl e
      | Inr new_item \<Rightarrow>
          if val \<noteq> [] then
            (if length val \<le> item_len new_item then Inr (acc @ [new_item])
             else build_items sp gdb n parents defaults rest
                    (drop (item_len new_item) val) (acc @ [new_item]))
          else build_items sp gdb n parents defaults rest val (acc @ [new_item]))"

  by pat_completeness auto
termination
  by (relation "inv_image (less_than <*lex*> less_than <*lex*> less_than)
        (\<lambda>x. case x of
           Inl (sp, gdb, n, parents, kw) \<Rightarrow> (n, 2 :: nat, 0 :: nat)
         | Inr (Inl (sp, gdb, n, parents, t, kw)) \<Rightarrow> (n, 0, 0)
         | Inr (Inr (sp, gdb, n, parents, d, ts, v, acc)) \<Rightarrow> (n, 1, length ts))") auto

declare OpcuaBlock_init.simps [simp del] factory.simps [simp del]

text \<open>
  The total declared size of a block template, as the specification words it; it is not
  taken from the code. A field item declares its size; an item that names a block type
  declares the total of that type's template, followed to depth \<open>n\<close>. An item without a
  type, a dependency placeholder and an unknown block type declare no size.
\<close>

function declared_size :: "OpcuaSpec \<Rightarrow> nat \<Rightarrow> item_template list \<Rightarrow> nat option"
  and item_declared_size :: "OpcuaSpec \<Rightarrow> nat \<Rightarrow> item_template \<Rightarrow> nat option"
where
  "declared_size sp n [] = Some 0"
| "declared_size sp n (t # ts) =
     (case item_declared_size sp n t of
        None \<Rightarrow> None
      | Some a \<Rightarrow>
          (case declared_size sp n ts of
             None \<Rightarrow> None
           | Some b \<Rightarrow> Some (a + b)))"
| "item_declared_size sp n t =
     (case it_type t of
        None \<Rightarrow> None
      | Some ty \<Rightarrow>
          if ty = ''field'' then Some (it_size t)
          else if startswith ty ''depends:'' then None
          else
            (case n of
               0 \<Rightarrow> None
             | Suc m \<Rightarrow>
                 (case get_block_template sp ty of
                    None \<Rightarrow> None
                  | Some block_template \<Rightarrow> declared_size sp m block_template)))"
  by pat_completeness auto
termination
  by (relation "inv_image (less_than <*lex*> less_than)
        (\<lambda>x. case x of
           Inl (sp, n, ts) \<Rightarrow> (n, Suc (length ts))
         | Inr (sp, n, t) \<Rightarrow> (n, 0))") auto

declare item_declared_size.simps [simp del]

text \<open>Every block template that the items of a template name, followed to depth \<open>n\<close>, has
  at least one item. \<open>__init__\<close> takes an empty template for a missing one
  (\<open>if not block_template\<close>).\<close>

function nested_templates_nonempty :: "OpcuaSpec \<Rightarrow> nat \<Rightarrow> item_template list \<Rightarrow> bool"
  and item_templates_nonempty :: "OpcuaSpec \<Rightarrow> nat \<Rightarrow> item_template \<Rightarrow> bool"
where
  "nested_templates_nonempty sp n [] = True"
| "nested_templates_nonempty sp n (t # ts) =
     (item_templates_nonempty sp n t \<and> nested_templates_nonempty sp n ts)"
| "item_templates_nonempty sp n t =
     (case it_type t of
        None \<Rightarrow> True
      | Some ty \<Rightarrow>
          if ty = ''field'' then True
          else if startswith ty ''depends:'' then True
          else
            (case n of
               0 \<Rightarrow> True
             | Suc m \<Rightarrow>
                 (case get_block_template sp ty of
                    None \<Rightarrow> True
                  | Some block_template \<Rightarrow>
                      block_template \<noteq> [] \<and> nested_templates_nonempty sp m block_template)))"
  by pat_completeness auto
termination
  by (relation "inv_image (less_than <*lex*> less_than)
        (\<lambda>x. case x of
           Inl (sp, n, ts) \<Rightarrow> (n, Suc (length ts))
         | Inr (sp, n, t) \<Rightarrow> (n, 0))") auto

declare item_templates_nonempty.simps [simp del]

section \<open>Properties of the byte conversions\<close>

text \<open>
  Claim C6. \<open>resize\<close> returns the array unchanged when the size equals its length. For a
  smaller size (not negative) it keeps the trailing bytes in big-endian order and the
  leading bytes in little-endian order. For a larger size it prepends zero bytes in
  big-endian order and appends them in little-endian order. The order is the explicit
  one when given, else the default one. Resizing the two bytes D2 D2 to size 1 in
  big-endian order yields the single byte D2.
\<close>

theorem resize_pad_truncate:
  "(sz = int (length array) \<longrightarrow> resize BYTEORDER array sz byteorder = array)
   \<and> (0 \<le> sz \<and> sz < int (length array) \<longrightarrow>
        (byteorder_or_default BYTEORDER byteorder = ''big'' \<longrightarrow>
           resize BYTEORDER array sz byteorder = drop (length array - nat sz) array)
        \<and> (byteorder_or_default BYTEORDER byteorder = ''little'' \<longrightarrow>
           resize BYTEORDER array sz byteorder = take (nat sz) array))
   \<and> (int (length array) < sz \<longrightarrow>
        (byteorder_or_default BYTEORDER byteorder = ''big'' \<longrightarrow>
           resize BYTEORDER array sz byteorder
             = replicate (nat sz - length array) 0 @ array)
        \<and> (byteorder_or_default BYTEORDER byteorder = ''little'' \<longrightarrow>
           resize BYTEORDER array sz byteorder
             = array @ replicate (nat sz - length array) 0))
   \<and> resize BYTEORDER [0xD2, 0xD2] 1 (Some ''big'') = [0xD2]"
proof -
  have same: "sz = int (length array) \<longrightarrow> resize BYTEORDER array sz byteorder = array"
    by (simp add: resize_def)
  have idx: "0 \<le> sz \<Longrightarrow> sz < int (length array) \<Longrightarrow>
      nat (int (length array) - sz) = length array - nat sz"
    by arith
  have trunc: "0 \<le> sz \<and> sz < int (length array) \<longrightarrow>
        (byteorder_or_default BYTEORDER byteorder = ''big'' \<longrightarrow>
           resize BYTEORDER array sz byteorder = drop (length array - nat sz) array)
        \<and> (byteorder_or_default BYTEORDER byteorder = ''little'' \<longrightarrow>
           resize BYTEORDER array sz byteorder = take (nat sz) array)"
    using idx by (simp add: resize_def slice_from_def slice_to_def)
  have len: "int (length array) < sz \<Longrightarrow>
      nat (sz - int (length array)) = nat sz - length array"
    by arith
  have pad: "int (length array) < sz \<longrightarrow>
        (byteorder_or_default BYTEORDER byteorder = ''big'' \<longrightarrow>
           resize BYTEORDER array sz byteorder
             = replicate (nat sz - length array) 0 @ array)
        \<and> (byteorder_or_default BYTEORDER byteorder = ''little'' \<longrightarrow>
           resize BYTEORDER array sz byteorder
             = array @ replicate (nat sz - length array) 0)"
    using len by (simp add: resize_def)
  have ex: "resize BYTEORDER [0xD2, 0xD2] 1 (Some ''big'') = [0xD2]"
    by (simp add: resize_def byteorder_or_default_def slice_from_def)
  from same trunc pad ex show ?thesis by blast
qed

theorem resize_pad_truncate_witness:
  "resize ''big'' [1, 2, 3] 3 None = [1, 2, 3]
   \<and> resize ''big'' [1, 2, 3] 2 None = [2, 3]
   \<and> resize ''big'' [1, 2, 3] 2 (Some ''little'') = [1, 2]
   \<and> resize ''big'' [1, 2, 3] 5 (Some ''big'') = [0, 0, 1, 2, 3]
   \<and> resize ''little'' [1, 2, 3] 5 None = [1, 2, 3, 0, 0]"
  using resize_pad_truncate [of 3 "[1, 2, 3]" "''big''" None]
    resize_pad_truncate [of 2 "[1, 2, 3]" "''big''" None]
    resize_pad_truncate [of 2 "[1, 2, 3]" "''big''" "Some ''little''"]
    resize_pad_truncate [of 5 "[1, 2, 3]" "''big''" "Some ''big''"]
    resize_pad_truncate [of 5 "[1, 2, 3]" "''little''" None]
  by (simp add: byteorder_or_default_def eval_nat_numeral)

section \<open>Evaluation on numerals\<close>

lemma bits_lsb_first_numeral:
  "bits_lsb_first (numeral k) n = (n mod 2) # bits_lsb_first (pred_numeral k) (n div 2)"
  by (simp add: numeral_eq_Suc)

lemma le_bytes_numeral:
  "le_bytes (numeral k) n = of_nat (n mod 256) # le_bytes (pred_numeral k) (n div 256)"
  using le_bytes.simps(2) [of "pred_numeral k" n]
  by (simp only: numeral_eq_Suc [symmetric])

lemma bit_length_nat_0: "bit_length_nat 0 = 0"
  by (simp add: bit_length_nat.simps [of 0])

lemma bit_length_nat_pos: "0 < n \<Longrightarrow> bit_length_nat n = Suc (bit_length_nat (n div 2))"
  by (subst bit_length_nat.simps) simp


section \<open>Invalid byte orders\<close>




section \<open>Bit lists\<close>

text \<open>
  Claim C5 at a failing input. With the default order big, the byte 01 converted to bits
  with the explicit order little gives the bits most significant first, because
  \<open>to_bit_list\<close> does not pass its order on to \<open>int_to_bit_list\<close>; converting these
  bits back with the explicit order little gives the byte 80, not 01.
\<close>

theorem bit_list_explicit_order_failing_input:
  "to_bit_list ''big'' [1] None (Some ''little'') = Inr [0, 0, 0, 0, 0, 0, 0, 1]
   \<and> from_bit_list ''big'' [0, 0, 0, 0, 0, 0, 0, 1] (Some ''little'') = Inr [128]"
proof -
  have "to_bit_list ''big'' [1] None (Some ''little'') = Inr [0, 0, 0, 0, 0, 0, 0, 1]"
    by (simp add: to_bit_list_def int_to_bit_list_def byteorder_or_default_def
        int_from_bytes_def bits_lsb_first_numeral)
  moreover have "from_bit_list ''big'' [0, 0, 0, 0, 0, 0, 0, 1] (Some ''little'') = Inr [128]"
    by (simp add: from_bit_list_def bit_list_to_int_def byteorder_or_default_def
        int_to_bytes_def shift_add_def le_bytes_numeral)
  ultimately show ?thesis by simp
qed

section \<open>Properties of block construction\<close>

text \<open>
  Claim C3 at a failing input. The factory is given a field template named \<open>a\<close> and a
  default-value map with an entry for \<open>a\<close>. The branch that should assign the entry reads
  the undefined name \<open>template\<close>, so the call raises NameError and no field is built.
\<close>

theorem factory_field_default_failing_input:
  "factory sp gdb n parents \<lparr>it_name = ''a'', it_type = Some ''field'', it_size = 1\<rparr>
     \<lparr>kw_type = None, kw_item_template_block = None,
      kw_defaults = Some [''a'' \<mapsto> PBytes [1]], kw_value = None\<rparr> = Inl NameError"
  by (simp add: factory.simps)

text \<open>
  Claim C10. Constructing a block with no \<open>type\<close> keyword and with no item template, or
  with an item template that has no type, raises nothing and yields a block without
  children, whatever the other arguments and the specification document are.
\<close>

theorem no_type_gives_empty_block:
  assumes "kw_type kw = None"
    and "kw_item_template_block kw = None
         \<or> (\<exists>t. kw_item_template_block kw = Some t \<and> it_type t = None)"
  shows "\<exists>b. OpcuaBlock_init sp gdb n parents kw = Inr b \<and> children b = []"
proof -
  from assms have "kwargs_block_type kw = None"
    by (auto simp: kwargs_block_type_def)
  then show ?thesis
    by (simp add: OpcuaBlock_init.simps BOFBlock_init_def)
qed

theorem no_type_gives_empty_block_witness:
  "(\<exists>b. OpcuaBlock_init \<lparr>blocks = [], codes = []\<rparr> (\<lambda>p d. Inr None) 0 []
           \<lparr>kw_type = None, kw_item_template_block = None,
            kw_defaults = None, kw_value = Some [1, 2]\<rparr> = Inr b \<and> children b = [])
   \<and> (\<exists>b. OpcuaBlock_init \<lparr>blocks = [], codes = []\<rparr> (\<lambda>p d. Inr None) 0 []
           \<lparr>kw_type = None,
            kw_item_template_block = Some \<lparr>it_name = ''body'', it_type = None, it_size = 0\<rparr>,
            kw_defaults = None, kw_value = None\<rparr> = Inr b \<and> children b = [])"
  using no_type_gives_empty_block [of "\<lparr>kw_type = None, kw_item_template_block = None,
            kw_defaults = None, kw_value = Some [1, 2]\<rparr>" "\<lparr>blocks = [], codes = []\<rparr>"
            "\<lambda>p d. Inr None" 0 "[]"]
    no_type_gives_empty_block [of "\<lparr>kw_type = None,
            kw_item_template_block = Some \<lparr>it_name = ''body'', it_type = None, it_size = 0\<rparr>,
            kw_defaults = None, kw_value = None\<rparr>" "\<lparr>blocks = [], codes = []\<rparr>"
            "\<lambda>p d. Inr None" 0 "[]"]
  by simp

section \<open>Integer round trip\<close>

lemma length_le_bytes [simp]: "length (le_bytes k n) = k"
  by (induction k arbitrary: n) simp_all

lemma le_to_nat_le_bytes: "le_to_nat (le_bytes k n) = n mod 256 ^ k"
proof (induction k arbitrary: n)
  case 0
  show ?case by simp
next
  case (Suc k)
  have "unat (of_nat (n mod 256) :: byte) = n mod 256"
    by (simp add: unat_of_nat)
  then have "le_to_nat (le_bytes (Suc k) n) = n mod 256 + 256 * (n div 256 mod 256 ^ k)"
    by (simp add: Suc.IH)
  also have "\<dots> = n mod (256 * 256 ^ k)"
    by (simp add: mod_mult2_eq)
  finally show ?case by simp
qed

lemma le_to_nat_zeros [simp]: "le_to_nat (replicate m 0) = 0"
  by (induction m) simp_all

lemma le_to_nat_append_zeros [simp]: "le_to_nat (xs @ replicate m 0) = le_to_nat xs"
  by (induction xs) simp_all

lemma less_two_power_bit_length: "n < 2 ^ bit_length_nat n"
proof (induction n rule: bit_length_nat.induct)
  case (1 n)
  show ?case
  proof (cases "n = 0")
    case True
    then show ?thesis by (simp add: bit_length_nat.simps [of 0])
  next
    case False
    then have "n div 2 < 2 ^ bit_length_nat (n div 2)"
      using "1" by simp
    then have "n < 2 * 2 ^ bit_length_nat (n div 2)"
      by arith
    moreover have "bit_length_nat n = Suc (bit_length_nat (n div 2))"
      using False by (subst bit_length_nat.simps) simp
    ultimately show ?thesis by simp
  qed
qed

lemma less_256_power_size: "n < 256 ^ ((bit_length_nat n + 7) div 8)"
proof -
  have "bit_length_nat n \<le> 8 * ((bit_length_nat n + 7) div 8)"
    by arith
  then have "(2::nat) ^ bit_length_nat n \<le> 2 ^ (8 * ((bit_length_nat n + 7) div 8))"
    by (rule power_increasing) simp
  also have "\<dots> = 256 ^ ((bit_length_nat n + 7) div 8)"
    by (simp add: power_mult)
  finally show ?thesis
    using less_two_power_bit_length [of n] by simp
qed

lemma bit_length_nat_eq_0: "bit_length_nat n = 0 \<longleftrightarrow> n = 0"
  by (subst bit_length_nat.simps) simp

text \<open>
  Claim C7. For every integer \<open>n \<ge> 0\<close>, every explicit order big or little and every
  size that is at least the minimal byte count \<open>get_size n\<close>, \<open>from_int\<close> returns a byte
  sequence and \<open>to_int\<close> with the same order returns \<open>n\<close> from it, whatever the default
  order is during either call.
\<close>

theorem int_round_trip:
  assumes "0 \<le> n"
    and "byteorder = ''big'' \<or> byteorder = ''little''"
    and "get_size (PInt n) = Inr k"
    and "int k \<le> sz"
  shows "\<exists>bs. from_int BYTEORDER n sz (Some byteorder) = Inr bs
            \<and> to_int BYTEORDER' bs (Some byteorder) = Inr n"
proof -
  define m where "m = nat n"
  have k: "k = (bit_length_nat m + 7) div 8"
    using assms(1,3) by (simp add: get_size_def bit_length_def m_def)
  have bl: "bit_length n = bit_length_nat m"
    using assms(1) by (simp add: bit_length_def m_def)
  have fits: "m < 256 ^ k"
    unfolding k by (rule less_256_power_size)
  have eff: "byteorder_or_default B (Some byteorder) = byteorder" for B
    using assms(2) by (auto simp: byteorder_or_default_def)
  have rt: "le_to_nat (le_bytes k m) = m"
    using fits by (simp add: le_to_nat_le_bytes)
  have conv: "int_to_bytes n k byteorder =
      Inr (if byteorder = ''little'' then le_bytes k m else rev (le_bytes k m))"
    using assms(1,2) fits by (auto simp: int_to_bytes_def m_def)
  define val where "val = (if byteorder = ''little'' then le_bytes k m else rev (le_bytes k m))"
  have lenval: "length val = k"
    by (simp add: val_def)
  define sz' where "sz' = (if k = 0 then (if sz = 0 then 1 else sz) else sz)"
  have sz'_ge: "int k \<le> sz'" and sz'_pos: "0 < sz'"
    using assms(4) by (auto simp: sz'_def)
  have built: "from_int BYTEORDER n sz (Some byteorder)
      = Inr (resize BYTEORDER val sz' (Some byteorder))"
    using assms(2) sz'_pos
    by (auto simp: from_int_def eff bl k [symmetric] conv val_def [symmetric] lenval sz'_def
        Let_def)
  have res: "resize BYTEORDER val sz' (Some byteorder) =
      (if byteorder = ''big'' then replicate (nat sz' - k) 0 @ val
       else val @ replicate (nat sz' - k) 0)"
    using sz'_ge by (auto simp: resize_def eff lenval Let_def nat_diff_distrib)
  have "to_int BYTEORDER' (resize BYTEORDER val sz' (Some byteorder)) (Some byteorder)
      = Inr (int m)"
  proof (cases "byteorder = ''big''")
    case True
    then show ?thesis
      unfolding res by (simp add: to_int_def byteorder_or_default_def int_from_bytes_def val_def rt)
  next
    case False
    with assms(2) have "byteorder = ''little''" by simp
    then show ?thesis
      unfolding res by (simp add: to_int_def byteorder_or_default_def int_from_bytes_def val_def rt)
  qed
  then show ?thesis
    using built assms(1) by (simp add: m_def)
qed

theorem int_round_trip_witness:
  "\<exists>bs. from_int ''big'' 65980 8 (Some ''little'') = Inr bs
            \<and> to_int ''big'' bs (Some ''little'') = Inr 65980"
proof -
  have "bit_length_nat (nat 65980) = 17"
    by (simp add: bit_length_nat_pos bit_length_nat_0)
  then have "get_size (PInt 65980) = Inr 3"
    by (simp add: get_size_def bit_length_def)
  then show ?thesis
    using int_round_trip [of 65980 "''little''" 3 8 "''big''" "''big''"] by simp
qed

section \<open>KNX group addresses\<close>

lemma shift_add_Nil [simp]: "shift_add [] = 0"
  by (simp add: shift_add_def)



lemma length_bits_lsb_first [simp]: "length (bits_lsb_first k n) = k"
  by (induction k arbitrary: n) simp_all

































text \<open>With the default order little, the bits of byte 1 are listed least significant
  first and the two functions read other bits: the byte 10 has the first 5 bits 00010,
  and \<open>to_knx\<close> returns X = 1.\<close>

lemma knx_group_little_order_example:
  "to_knx ''little'' [0x10, 0x00] True = Inr (Some ''1/0/0'')"
  by code_simp

section \<open>Dependency resolution from the default values\<close>

lemma startswith_depends_message_type [simp]:
  "startswith ''depends:message_type'' ''depends:''"
  by (simp add: startswith_def)

lemma dependency_of_message_type [simp]:
  "dependency_of ''depends:message_type'' = ''message_type''"
  by (simp add: dependency_of_def)

text \<open>
  Claim C8. A block whose type (from the keyword \<open>type\<close> or from the item template) is
  \<open>depends:message_type\<close>, constructed with a default-value map that holds
  \<open>message_type: "HEL"\<close>, is constructed from the type that
  \<open>get_code_name("message_type", "HEL")\<close> returns: the construction raises what the
  lookup raises, fails when the lookup finds nothing, and otherwise builds the children
  from that type's template and names the block after it. So whenever a block is
  returned, its name is the result of the direct lookup.
\<close>

theorem depends_message_type_resolution:
  assumes "kwargs_block_type kw = Some ''depends:message_type''"
    and "kw_defaults kw = Some d"
    and "d ''message_type'' = Some (PStr ''HEL'')"
  shows "OpcuaBlock_init sp gdb n parents kw =
      (case get_code_name sp ''message_type'' (PStr ''HEL'') of
         Inl e \<Rightarrow> Inl e
       | Inr None \<Rightarrow> Inl BOFProgrammingError
       | Inr (Some block_type) \<Rightarrow>
           (case get_block_template sp block_type of
              None \<Rightarrow> Inl BOFProgrammingError
            | Some block_template \<Rightarrow>
                if block_template = [] then Inl BOFProgrammingError
                else
                  (case build_items sp gdb n parents d block_template
                          (case kw_value kw of Some v \<Rightarrow> v | None \<Rightarrow> []) [] of
                     Inl e \<Rightarrow> Inl e
                   | Inr cs \<Rightarrow> Inr (OpcuaBlock block_type cs))))
    \<and> (\<forall>b. OpcuaBlock_init sp gdb n parents kw = Inr b \<longrightarrow>
           get_code_name sp ''message_type'' (PStr ''HEL'') = Inr (Some (item_name b)))"
proof -
  have res: "resolve_block_type sp gdb parents d ''depends:message_type''
      = get_code_name sp ''message_type'' (PStr ''HEL'')"
    using assms(3) by (simp add: resolve_block_type_def)
  have eq: "OpcuaBlock_init sp gdb n parents kw =
      (case get_code_name sp ''message_type'' (PStr ''HEL'') of
         Inl e \<Rightarrow> Inl e
       | Inr None \<Rightarrow> Inl BOFProgrammingError
       | Inr (Some block_type) \<Rightarrow>
           (case get_block_template sp block_type of
              None \<Rightarrow> Inl BOFProgrammingError
            | Some block_template \<Rightarrow>
                if block_template = [] then Inl BOFProgrammingError
                else
                  (case build_items sp gdb n parents d block_template
                          (case kw_value kw of Some v \<Rightarrow> v | None \<Rightarrow> []) [] of
                     Inl e \<Rightarrow> Inl e
                   | Inr cs \<Rightarrow> Inr (OpcuaBlock block_type cs))))"
    by (simp add: OpcuaBlock_init.simps assms(1,2) res)
  have "get_code_name sp ''message_type'' (PStr ''HEL'') = Inr (Some (item_name b))"
    if "OpcuaBlock_init sp gdb n parents kw = Inr b" for b
    using that unfolding eq
    by (auto split: sum.splits option.splits if_splits)
  with eq show ?thesis by blast
qed

theorem depends_message_type_resolution_witness:
  "OpcuaBlock_init
     \<lparr>blocks = [(''HEL_BODY'',
                 [\<lparr>it_name = ''protocol_version'', it_type = Some ''field'', it_size = 4\<rparr>])],
      codes = [(''message_type'', [(''HEL'', ''HEL_BODY''), (''ACK'', ''ACK_BODY'')])]\<rparr>
     (\<lambda>p dep. Inr None) 0 []
     \<lparr>kw_type = None,
      kw_item_template_block =
        Some \<lparr>it_name = ''body'', it_type = Some ''depends:message_type'', it_size = 0\<rparr>,
      kw_defaults = Some [''message_type'' \<mapsto> PStr ''HEL''], kw_value = None\<rparr>
   = Inr (OpcuaBlock ''HEL_BODY'' [OpcuaField ''protocol_version'' 4 []])
   \<and> get_code_name
     \<lparr>blocks = [(''HEL_BODY'',
                 [\<lparr>it_name = ''protocol_version'', it_type = Some ''field'', it_size = 4\<rparr>])],
      codes = [(''message_type'', [(''HEL'', ''HEL_BODY''), (''ACK'', ''ACK_BODY'')])]\<rparr>
     ''message_type'' (PStr ''HEL'') = Inr (Some ''HEL_BODY'')"
proof -
  let ?sp = "\<lparr>blocks = [(''HEL_BODY'',
                 [\<lparr>it_name = ''protocol_version'', it_type = Some ''field'', it_size = 4\<rparr>])],
      codes = [(''message_type'', [(''HEL'', ''HEL_BODY''), (''ACK'', ''ACK_BODY'')])]\<rparr>"
  let ?kw = "\<lparr>kw_type = None,
      kw_item_template_block =
        Some \<lparr>it_name = ''body'', it_type = Some ''depends:message_type'', it_size = 0\<rparr>,
      kw_defaults = Some [''message_type'' \<mapsto> PStr ''HEL''], kw_value = None\<rparr>"
  have g: "get_code_name ?sp ''message_type'' (PStr ''HEL'') = Inr (Some ''HEL_BODY'')"
    by (simp add: get_code_name_def get_dict_key_def first_match_def)
  have t: "get_block_template ?sp ''HEL_BODY'' =
      Some [\<lparr>it_name = ''protocol_version'', it_type = Some ''field'', it_size = 4\<rparr>]"
    by (simp add: get_block_template_def get_dict_value_def)
  have k: "kwargs_block_type ?kw = Some ''depends:message_type''"
    by (simp add: kwargs_block_type_def)
  show ?thesis
    using depends_message_type_resolution
      [of ?kw "[''message_type'' \<mapsto> PStr ''HEL'']" ?sp "\<lambda>p dep. Inr None" 0 "[]", OF k]
    by (simp add: g t factory.simps BOFField_init_def)
qed

section \<open>The loop over the block template\<close>

lemma factory_field_no_default:
  assumes "it_type t = Some ''field''" and "d (it_name t) = None"
  shows "factory sp gdb n parents t
           \<lparr>kw_type = None, kw_item_template_block = None,
            kw_defaults = Some d, kw_value = Some val\<rparr>
         = Inr (OpcuaField (it_name t) (it_size t) (take (it_size t) val))"
  using assms by (cases "val = []") (simp_all add: factory.simps BOFField_init_def)





section \<open>Parsing a buffer and serializing the block\<close>

lemma item_len_bytes: "item_len it = length (item_bytes it)"
proof (induction it)
  case (OpcuaField n s v)
  show ?case by simp
next
  case (OpcuaBlock n cs)
  have "map item_len cs = map (length \<circ> item_bytes) cs"
    by (rule map_cong [OF refl]) (simp add: OpcuaBlock.IH)
  then have e: "sum_list (map item_len cs) = sum_list (map (length \<circ> item_bytes) cs)"
    by (rule arg_cong)
  show ?case
    by (simp add: length_concat e)
qed

lemma factory_bytes:
  assumes nested: "\<And>m ts k val acc parents. n = Suc m \<Longrightarrow> declared_size sp m ts = Some k \<Longrightarrow>
      nested_templates_nonempty sp m ts \<Longrightarrow>
      \<exists>new. build_items sp gdb m parents Map.empty ts val acc = Inr (acc @ new)
            \<and> concat (map item_bytes new) = take k val"
    and ne: "item_templates_nonempty sp n t"
    and sz: "item_declared_size sp n t = Some a"
  shows "\<exists>it. factory sp gdb n parents t
               \<lparr>kw_type = None, kw_item_template_block = None,
                kw_defaults = Some Map.empty, kw_value = Some val\<rparr> = Inr it
            \<and> item_bytes it = take a val"
proof -
  from sz obtain ty where ty: "it_type t = Some ty"
    by (auto simp: item_declared_size.simps split: option.splits)
  show ?thesis
  proof (cases "ty = ''field''")
    case True
    with sz ty have "a = it_size t"
      by (simp add: item_declared_size.simps)
    then show ?thesis
      using ty True by (simp add: factory_field_no_default)
  next
    case False
    with sz ty obtain m block_template where
      nd: "\<not> startswith ty ''depends:''" and n: "n = Suc m"
      and tpl: "get_block_template sp ty = Some block_template"
      and dsz: "declared_size sp m block_template = Some a"
      by (auto simp: item_declared_size.simps split: if_splits nat.splits option.splits)
    from ne ty False nd n tpl have nonempty: "block_template \<noteq> []"
      and deeper: "nested_templates_nonempty sp m block_template"
      by (simp_all add: item_templates_nonempty.simps)
    from nested [OF n dsz deeper, of parents val "[]"] obtain new where
      built: "build_items sp gdb m parents Map.empty block_template val [] = Inr new"
      and bytes: "concat (map item_bytes new) = take a val"
      by auto
    have "factory sp gdb n parents t
               \<lparr>kw_type = None, kw_item_template_block = None,
                kw_defaults = Some Map.empty, kw_value = Some val\<rparr> = Inr (OpcuaBlock ty new)"
      using ty False nd n tpl nonempty built
      by (simp add: factory.simps OpcuaBlock_init.simps kwargs_block_type_def
          resolve_block_type_def)
    then show ?thesis
      using bytes by simp
  qed
qed

lemma build_items_bytes_step:
  assumes nested: "\<And>m ts k val acc parents. n = Suc m \<Longrightarrow> declared_size sp m ts = Some k \<Longrightarrow>
      nested_templates_nonempty sp m ts \<Longrightarrow>
      \<exists>new. build_items sp gdb m parents Map.empty ts val acc = Inr (acc @ new)
            \<and> concat (map item_bytes new) = take k val"
    and sz: "declared_size sp n ts = Some k"
    and ne: "nested_templates_nonempty sp n ts"
  shows "\<exists>new. build_items sp gdb n parents Map.empty ts val acc = Inr (acc @ new)
            \<and> concat (map item_bytes new) = take k val"
  using sz ne
proof (induction ts arbitrary: k val acc)
  case Nil
  then show ?case by simp
next
  case (Cons t ts)
  from Cons.prems(1) obtain a k' where
    a: "item_declared_size sp n t = Some a" and k': "declared_size sp n ts = Some k'"
    and k: "k = a + k'"
    by (auto split: option.splits)
  from Cons.prems(2) have net: "item_templates_nonempty sp n t"
    and nets: "nested_templates_nonempty sp n ts"
    by simp_all
  from factory_bytes [OF nested net a, of "acc # parents" val] obtain it where
    f: "factory sp gdb n (acc # parents) t
               \<lparr>kw_type = None, kw_item_template_block = None,
                kw_defaults = Some Map.empty, kw_value = Some val\<rparr> = Inr it"
    and bytes: "item_bytes it = take a val"
    by blast
  have len: "item_len it = min (length val) a"
    by (simp add: item_len_bytes bytes)
  show ?case
  proof (cases "val = []")
    case True
    from Cons.IH [OF k' nets, of "[]" "acc @ [it]"] obtain new where
      "build_items sp gdb n parents Map.empty ts [] (acc @ [it]) = Inr ((acc @ [it]) @ new)"
      and "concat (map item_bytes new) = []"
      by auto
    then show ?thesis
      using True f bytes by simp
  next
    case False
    show ?thesis
    proof (cases "length val \<le> a")
      case True
      then have "build_items sp gdb n parents Map.empty (t # ts) val acc = Inr (acc @ [it])"
        using False f len by simp
      moreover have "concat (map item_bytes [it]) = take k val"
        using True bytes k by simp
      ultimately show ?thesis by blast
    next
      case long: False
      then have la: "item_len it = a"
        using len by simp
      from Cons.IH [OF k' nets, of "drop a val" "acc @ [it]"] obtain new where
        rest: "build_items sp gdb n parents Map.empty ts (drop a val) (acc @ [it])
                = Inr ((acc @ [it]) @ new)"
        and rbytes: "concat (map item_bytes new) = take k' (drop a val)"
        by auto
      have "build_items sp gdb n parents Map.empty (t # ts) val acc = Inr (acc @ it # new)"
        using False long f la rest by simp
      moreover have "concat (map item_bytes (it # new)) = take k val"
        using bytes rbytes k by (simp add: take_add)
      ultimately show ?thesis by blast
    qed
  qed
qed

lemma build_items_bytes:
  "declared_size sp n ts = Some k \<Longrightarrow> nested_templates_nonempty sp n ts \<Longrightarrow>
      \<exists>new. build_items sp gdb n parents Map.empty ts val acc = Inr (acc @ new)
            \<and> concat (map item_bytes new) = take k val"
proof (induction n arbitrary: ts k val acc parents)
  case 0
  show ?case
    by (rule build_items_bytes_step [OF _ "0.prems"]) simp
next
  case (Suc n)
  show ?case
  proof (rule build_items_bytes_step [OF _ Suc.prems])
    fix m ts' k' val' acc' parents'
    assume "Suc n = Suc m" and d: "declared_size sp m ts' = Some k'"
      and e: "nested_templates_nonempty sp m ts'"
    then have m: "m = n" by simp
    with d e have "declared_size sp n ts' = Some k'" "nested_templates_nonempty sp n ts'"
      by simp_all
    from Suc.IH [OF this] show "\<exists>new. build_items sp gdb m parents' Map.empty ts' val' acc'
        = Inr (acc' @ new) \<and> concat (map item_bytes new) = take k' val'"
      using m by simp
  qed
qed

text \<open>
  Claim C1, as amended. Let the template of a block type (not a dependency placeholder)
  have at least one item, as let every block template that its items name, directly or
  through nested blocks; and let its total declared size be \<open>L\<close>, nested block types
  included. Then constructing the block from a buffer of length \<open>L\<close>, without default
  values, returns a block, and serializing that block gives back the buffer byte for byte.
\<close>

theorem parse_serialize_round_trip:
  assumes "\<not> startswith block_type ''depends:''"
    and "get_block_template sp block_type = Some block_template"
    and "block_template \<noteq> []"
    and "nested_templates_nonempty sp n block_template"
    and "declared_size sp n block_template = Some (length buffer)"
  shows "\<exists>b. OpcuaBlock_init sp gdb n parents
                \<lparr>kw_type = Some block_type, kw_item_template_block = itb,
                 kw_defaults = None, kw_value = Some buffer\<rparr> = Inr b
            \<and> item_bytes b = buffer"
proof -
  from build_items_bytes [OF assms(5,4), of gdb parents buffer "[]"] obtain new where
    built: "build_items sp gdb n parents Map.empty block_template buffer [] = Inr new"
    and bytes: "concat (map item_bytes new) = buffer"
    by auto
  have "OpcuaBlock_init sp gdb n parents
                \<lparr>kw_type = Some block_type, kw_item_template_block = itb,
                 kw_defaults = None, kw_value = Some buffer\<rparr> = Inr (OpcuaBlock block_type new)"
    using assms(1,2,3) built
    by (simp add: OpcuaBlock_init.simps kwargs_block_type_def resolve_block_type_def)
  then show ?thesis
    using bytes by simp
qed

theorem parse_serialize_round_trip_witness:
  "\<exists>b. OpcuaBlock_init
          \<lparr>blocks = [(''MSG'', [\<lparr>it_name = ''header'', it_type = Some ''HEADER'', it_size = 0\<rparr>,
                               \<lparr>it_name = ''c'', it_type = Some ''field'', it_size = 1\<rparr>]),
                     (''HEADER'', [\<lparr>it_name = ''a'', it_type = Some ''field'', it_size = 1\<rparr>,
                                  \<lparr>it_name = ''b'', it_type = Some ''field'', it_size = 1\<rparr>])],
           codes = []\<rparr>
          (\<lambda>p dep. Inr None) (Suc 0) []
          \<lparr>kw_type = Some ''MSG'', kw_item_template_block = None,
           kw_defaults = None, kw_value = Some [1, 2, 3]\<rparr> = Inr b
       \<and> item_bytes b = [1, 2, 3]"
proof -
  let ?msg = "[\<lparr>it_name = ''header'', it_type = Some ''HEADER'', it_size = 0\<rparr>,
               \<lparr>it_name = ''c'', it_type = Some ''field'', it_size = 1\<rparr>]"
  let ?sp = "\<lparr>blocks = [(''MSG'', ?msg),
                     (''HEADER'', [\<lparr>it_name = ''a'', it_type = Some ''field'', it_size = 1\<rparr>,
                                  \<lparr>it_name = ''b'', it_type = Some ''field'', it_size = 1\<rparr>])],
           codes = []\<rparr>"
  have h1: "\<not> startswith ''MSG'' ''depends:''"
    by (simp add: startswith_def)
  have h2: "get_block_template ?sp ''MSG'' = Some ?msg"
    by (simp add: get_block_template_def get_dict_value_def)
  have h3: "?msg \<noteq> []"
    by simp
  have h4: "nested_templates_nonempty ?sp (Suc 0) ?msg"
    by (simp add: item_templates_nonempty.simps startswith_def get_block_template_def
        get_dict_value_def)
  have h5: "declared_size ?sp (Suc 0) ?msg = Some (length [1, 2, 3 :: byte])"
    by (simp add: item_declared_size.simps startswith_def get_block_template_def
        get_dict_value_def)
  show ?thesis
    by (rule parse_serialize_round_trip [OF h1 h2 h3 h4 h5])
qed

text \<open>
  Claim C1 as stated fails for a block template without items: its declared sizes total
  0 and the empty buffer has length 0, but the construction raises BOFProgrammingError,
  because \<open>__init__\<close> takes an empty template for a missing one.
\<close>

theorem empty_template_counterexample:
  "get_block_template \<lparr>blocks = [(''E'', [])], codes = []\<rparr> ''E'' = Some []
   \<and> declared_size \<lparr>blocks = [(''E'', [])], codes = []\<rparr> 0 [] = Some (length ([] :: bytes))
   \<and> OpcuaBlock_init \<lparr>blocks = [(''E'', [])], codes = []\<rparr> (\<lambda>p dep. Inr None) 0 []
        \<lparr>kw_type = Some ''E'', kw_item_template_block = None,
         kw_defaults = None, kw_value = Some []\<rparr> = Inl BOFProgrammingError"
  by (simp add: get_block_template_def get_dict_value_def OpcuaBlock_init.simps
      kwargs_block_type_def resolve_block_type_def startswith_def)

end
